theory Spec2Isabelle
  imports Main "HOL-Library.Word" "HOL-Library.Sublist"
begin

section \<open>The standard-library string operations used by the parsers\<close>

text \<open>
  A \<open>std::string\<close> is a \<open>string\<close> (a list of bytes). Positions and counts are
  \<open>std::size_t\<close> values, modelled as natural numbers below \<open>2 ^ 64\<close> with the
  wrap-around of unsigned addition written out (\<open>size_add\<close>); \<open>npos\<close> is the largest
  such value. The parsers rely on \<open>npos + 1 = 0\<close> and \<open>npos + 2 = 1\<close>.
\<close>

datatype error = OutOfRange | InvalidArgument

definition npos :: nat where
  "npos = 2 ^ 64 - 1"

definition size_add :: "nat \<Rightarrow> nat \<Rightarrow> nat" where
  "size_add a b = (a + b) mod 2 ^ 64"

definition CR :: char where "CR = CHR 0x0D"
definition LF :: char where "LF = CHR 0x0A"
definition TAB :: char where "TAB = CHR 0x09"
definition VT :: char where "VT = CHR 0x0B"
definition FF :: char where "FF = CHR 0x0C"
definition SP :: char where "SP = CHR 0x20"

definition CRLF :: string where "CRLF = [CR, LF]"

text \<open>\<open>s.substr(pos, count)\<close>: throws \<open>std::out_of_range\<close> when \<open>pos > s.size()\<close>,
  otherwise the at most \<open>count\<close> bytes from \<open>pos\<close> on.\<close>

definition substr :: "string \<Rightarrow> nat \<Rightarrow> nat \<Rightarrow> error + string" where
  "substr s pos count = (if pos > length s then Inl OutOfRange else Inr (take count (drop pos s)))"

text \<open>The index of the first position at which \<open>pat\<close> starts.\<close>

fun find_idx :: "string \<Rightarrow> string \<Rightarrow> nat option" where
  "find_idx [] pat = (if pat = [] then Some 0 else None)"
| "find_idx (c # cs) pat =
     (if prefix pat (c # cs) then Some 0 else map_option Suc (find_idx cs pat))"

text \<open>The index of the first, and of the last, byte satisfying \<open>P\<close>.\<close>

fun first_idx :: "(char \<Rightarrow> bool) \<Rightarrow> string \<Rightarrow> nat option" where
  "first_idx P [] = None"
| "first_idx P (c # cs) = (if P c then Some 0 else map_option Suc (first_idx P cs))"

fun last_idx :: "(char \<Rightarrow> bool) \<Rightarrow> string \<Rightarrow> nat option" where
  "last_idx P [] = None"
| "last_idx P (c # cs) =
     (case last_idx P cs of Some i \<Rightarrow> Some (Suc i) | None \<Rightarrow> if P c then Some 0 else None)"

definition to_pos :: "nat option \<Rightarrow> nat" where
  "to_pos r = (case r of None \<Rightarrow> npos | Some i \<Rightarrow> i)"

definition str_find :: "string \<Rightarrow> string \<Rightarrow> nat" where
  "str_find s pat = to_pos (find_idx s pat)"

definition find_first_of :: "string \<Rightarrow> string \<Rightarrow> nat" where
  "find_first_of s chars = to_pos (first_idx (\<lambda>c. c \<in> set chars) s)"

definition find_last_of :: "string \<Rightarrow> string \<Rightarrow> nat" where
  "find_last_of s chars = to_pos (last_idx (\<lambda>c. c \<in> set chars) s)"

definition find_first_not_of :: "string \<Rightarrow> string \<Rightarrow> nat" where
  "find_first_not_of s chars = to_pos (first_idx (\<lambda>c. c \<notin> set chars) s)"

text \<open>\<open>std::stoul(str)\<close> in base 10: leading white space is skipped, one sign is accepted,
  then the longest run of decimal digits is converted. No digit at all is
  \<open>std::invalid_argument\<close>; a value above \<open>ULONG_MAX\<close> is \<open>std::out_of_range\<close>; a minus
  sign negates the value in the unsigned type. Whatever follows the digits is ignored.\<close>

definition isspace :: "char \<Rightarrow> bool" where
  "isspace c = (c \<in> set [SP, TAB, LF, VT, FF, CR])"

definition isdigit :: "char \<Rightarrow> bool" where
  "isdigit c = (c \<in> set ''0123456789'')"

definition digit_val :: "char \<Rightarrow> nat" where
  "digit_val c = of_char c - 48"

definition ULONG_MAX :: nat where
  "ULONG_MAX = 2 ^ 64 - 1"

definition is_negative :: "string \<Rightarrow> bool" where
  "is_negative s = (case s of [] \<Rightarrow> False | c # _ \<Rightarrow> c = CHR ''-'')"

definition skip_sign :: "string \<Rightarrow> string" where
  "skip_sign s = (case s of [] \<Rightarrow> [] | c # cs \<Rightarrow> if c = CHR ''+'' \<or> c = CHR ''-'' then cs else s)"

definition stoul :: "string \<Rightarrow> error + 64 word" where
  "stoul str =
     (let s1 = dropWhile isspace str;
          ds = takeWhile isdigit (skip_sign s1)
      in if ds = [] then Inl InvalidArgument
         else let v = foldl (\<lambda>a c. 10 * a + digit_val c) 0 ds
              in if v > ULONG_MAX then Inl OutOfRange
                 else Inr (if is_negative s1 then - of_nat v else of_nat v))"

section \<open>The request line\<close>

text \<open>Modelled from the spec: \<open>Method\<close> and \<open>URI\<close> (\<open>methods.hpp\<close>, \<open>common.hpp\<close>) are
  constructible from a token string and keep it; \<open>method::GET\<close> is the token \<open>GET\<close>.\<close>

type_synonym Method = string
type_synonym URI = string

definition method_GET :: Method where
  "method_GET = ''GET''"

text \<open>Modelled from the spec: \<open>Version\<close> (\<open>version.hpp\<close>) has the two unsigned fields
  major and minor.\<close>

record Version =
  major :: "32 word"
  minor :: "32 word"

text \<open>Modelled from the spec: \<open>Version{}\<close>, the default version, is \<open>(1, 1)\<close>.\<close>

definition Version_default :: Version where
  "Version_default = \<lparr>major = 1, minor = 1\<rparr>"

text \<open>Modelled from the spec: the stream form of a \<open>Version\<close> is \<open>HTTP/<major>.<minor>\<close>,
  both numbers in decimal.\<close>

fun dec_string :: "nat \<Rightarrow> string" where
  "dec_string n =
     (if n < 10 then [''0123456789'' ! n]
      else dec_string (n div 10) @ [''0123456789'' ! (n mod 10)])"

declare dec_string.simps [simp del]

definition Version_to_string :: "Version \<Rightarrow> string" where
  "Version_to_string v = ''HTTP/'' @ dec_string (unat (major v)) @ ''.'' @ dec_string (unat (minor v))"

record Request_Line =
  rl_method :: Method
  rl_uri :: URI
  rl_version :: Version

definition Request_Line_default :: Request_Line where
  "Request_Line_default = \<lparr>rl_method = method_GET, rl_uri = ''/'', rl_version = \<lparr>major = 1, minor = 1\<rparr>\<rparr>"

definition ebind :: "error + 'a \<Rightarrow> ('a \<Rightarrow> error + 'b) \<Rightarrow> error + 'b" where
  "ebind r f = (case r of Inl e \<Rightarrow> Inl e | Inr x \<Rightarrow> f x)"

text \<open>The parsing constructor. The result is the error thrown, or the object constructed
  together with the caller's buffer as the constructor leaves it.\<close>

definition Request_Line_parse :: "string \<Rightarrow> error + Request_Line \<times> string" where
  "Request_Line_parse request =
     (if request = [] \<or> length request < 16 then Inr (Request_Line_default, request)
      else
        ebind (substr request (find_first_not_of request [FF, TAB, VT, SP]) npos) (\<lambda>start.
        ebind (substr start 0 (str_find start CRLF)) (\<lambda>rl.
        ebind (substr rl 0 (find_first_of rl [SP])) (\<lambda>m.
        ebind (substr rl (size_add (find_first_of rl [SP]) 1) npos) (\<lambda>rl1.
        ebind (substr rl1 0 (find_last_of rl1 [SP])) (\<lambda>u.
        ebind (substr rl1 (size_add (find_last_of rl1 [SP]) 1) npos) (\<lambda>rl2.
        ebind (substr rl2 (size_add (str_find rl2 ''/'') 1) (str_find rl2 ''.'')) (\<lambda>major_s.
        ebind (substr rl2 (size_add (str_find rl2 ''.'') 1) npos) (\<lambda>minor_s.
        ebind (stoul major_s) (\<lambda>maj.
        ebind (stoul minor_s) (\<lambda>mn.
        ebind (substr request (size_add (str_find request CRLF) 2) npos) (\<lambda>rest.
        Inr (\<lparr>rl_method = m, rl_uri = u,
              rl_version = \<lparr>major = ucast maj, minor = ucast mn\<rparr>\<rparr>, rest)))))))))))))"

definition Request_Line_to_string :: "Request_Line \<Rightarrow> string" where
  "Request_Line_to_string r =
     rl_method r @ '' '' @ rl_uri r @ '' '' @ Version_to_string (rl_version r) @ CRLF"

text \<open>The two texts the constructor hands to \<open>std::stoul\<close>: the same slicing steps as in
  \<open>Request_Line_parse\<close>, up to the numeric conversion.\<close>

definition version_texts :: "string \<Rightarrow> error + string \<times> string" where
  "version_texts request =
     ebind (substr request (find_first_not_of request [FF, TAB, VT, SP]) npos) (\<lambda>start.
     ebind (substr start 0 (str_find start CRLF)) (\<lambda>rl.
     ebind (substr rl (size_add (find_first_of rl [SP]) 1) npos) (\<lambda>rl1.
     ebind (substr rl1 (size_add (find_last_of rl1 [SP]) 1) npos) (\<lambda>rl2.
     ebind (substr rl2 (size_add (str_find rl2 ''/'') 1) (str_find rl2 ''.'')) (\<lambda>major_s.
     ebind (substr rl2 (size_add (str_find rl2 ''.'') 1) npos) (\<lambda>minor_s.
     Inr (major_s, minor_s)))))))"

text \<open>A text starts with a number when, after white space and at most one sign, a decimal
  digit follows.\<close>

definition starts_numeric :: "string \<Rightarrow> bool" where
  "starts_numeric s =
     (\<exists>ws sg d rest. s = ws @ sg @ d # rest \<and> (\<forall>c\<in>set ws. isspace c)
        \<and> (sg = [] \<or> sg = ''+'' \<or> sg = ''-'') \<and> isdigit d)"

text \<open>A text without any white space, sign or digit: no part of it can be read as a
  number.\<close>

definition unstructured :: "string \<Rightarrow> bool" where
  "unstructured s =
     (\<forall>c\<in>set s. \<not> isspace c \<and> \<not> isdigit c \<and> c \<noteq> CHR ''+'' \<and> c \<noteq> CHR ''-'')"

section \<open>The response\<close>

text \<open>Modelled from the spec: the status code type \<open>status_t\<close>, with \<open>OK\<close> the code 200.\<close>

type_synonym status_t = nat

definition OK :: status_t where
  "OK = 200"

text \<open>Modelled from the spec: \<open>Status_line\<close> (\<open>status_line.hpp\<close>) holds a version and a code,
  is constructed from the two, and exposes get and set of the code.\<close>

record Status_line =
  sl_version :: Version
  sl_code :: status_t

definition Status_line_ctor :: "Version \<Rightarrow> status_t \<Rightarrow> Status_line" where
  "Status_line_ctor version code = \<lparr>sl_version = version, sl_code = code\<rparr>"

definition set_code :: "Status_line \<Rightarrow> status_t \<Rightarrow> Status_line" where
  "set_code sl code = sl\<lparr>sl_code := code\<rparr>"


text \<open>Modelled from the spec: \<open>Message\<close> (\<open>message.hpp\<close>) holds the header fields in
  insertion order, the body and the field-count limit it is constructed with.\<close>

record Message =
  header_fields :: "(string \<times> string) list"
  message_body :: string
  field_limit :: nat

definition Message_ctor :: "nat \<Rightarrow> Message" where
  "Message_ctor limit = \<lparr>header_fields = [], message_body = [], field_limit = limit\<rparr>"

text \<open>Modelled from the spec: \<open>Message::reset\<close> clears the headers and the body.\<close>

definition Message_reset :: "'a Message_scheme \<Rightarrow> 'a Message_scheme" where
  "Message_reset m = m\<lparr>header_fields := [], message_body := []\<rparr>"


text \<open>\<open>class Response : public Message\<close> with the one member \<open>status_line_\<close>.\<close>

record Response = Message +
  status_line :: Status_line

definition Response_of :: "Message \<Rightarrow> Status_line \<Rightarrow> Response" where
  "Response_of m sl =
     \<lparr>header_fields = header_fields m, message_body = message_body m,
      field_limit = field_limit m, status_line = sl\<rparr>"

text \<open>\<open>Response(code = OK, version = Version{})\<close>. The \<open>Message\<close> part is default-constructed;
  modelled from the spec: its field-count limit is the default 100.\<close>

definition Response_ctor :: "status_t \<Rightarrow> Version \<Rightarrow> Response" where
  "Response_ctor code version = Response_of (Message_ctor 100) (Status_line_ctor version code)"

definition Response_default :: Response where
  "Response_default = Response_ctor OK Version_default"


definition status_code :: "Response \<Rightarrow> status_t" where
  "status_code r = sl_code (status_line r)"

definition set_status_code :: "Response \<Rightarrow> status_t \<Rightarrow> Response" where
  "set_status_code r code = r\<lparr>status_line := set_code (status_line r) code\<rparr>"

definition Response_reset :: "Response \<Rightarrow> Response" where
  "Response_reset r = set_status_code (Message_reset r) OK"

text \<open>The separator \<open>sep\<close> occurs in \<open>buf\<close>, first after \<open>pre\<close>, and \<open>post\<close> is all that
  follows it.\<close>

definition first_split :: "string \<Rightarrow> string \<Rightarrow> string \<Rightarrow> string \<Rightarrow> bool" where
  "first_split sep buf pre post =
     (buf = pre @ sep @ post \<and> (\<forall>pre' post'. buf = pre' @ sep @ post' \<longrightarrow> length pre \<le> length pre'))"

section \<open>Searching a string\<close>

lemma find_idx_Some:
  "find_idx s pat = Some i \<Longrightarrow>
     i + length pat \<le> length s \<and> s = take i s @ pat @ drop (i + length pat) s
     \<and> (\<forall>j<i. \<not> prefix pat (drop j s))"
proof (induction s arbitrary: i)
  case Nil
  then show ?case by (simp split: if_splits)
next
  case (Cons c cs)
  show ?case
  proof (cases "prefix pat (c # cs)")
    case True
    with Cons.prems have "i = 0" by simp
    from True obtain zs where zs: "c # cs = pat @ zs" by (auto simp: prefix_def)
    then have "length (c # cs) = length (pat @ zs)" by simp
    then have "length pat \<le> length (c # cs)" by simp
    moreover from zs have "drop (length pat) (c # cs) = zs" by simp
    ultimately show ?thesis using \<open>i = 0\<close> zs by simp
  next
    case False
    with Cons.prems obtain k where k: "find_idx cs pat = Some k" "i = Suc k" by auto
    from Cons.IH [OF k(1)] have ih:
      "k + length pat \<le> length cs" "cs = take k cs @ pat @ drop (k + length pat) cs"
      "\<forall>j<k. \<not> prefix pat (drop j cs)" by auto
    have "\<forall>j<Suc k. \<not> prefix pat (drop j (c # cs))"
    proof (intro allI impI)
      fix j assume "j < Suc k"
      then show "\<not> prefix pat (drop j (c # cs))"
        using False ih(3) by (cases j) auto
    qed
    with ih(1) ih(2) k(2) show ?thesis by simp
  qed
qed

lemma find_idx_None: "find_idx s pat = None \<longleftrightarrow> \<not> sublist pat s"
  by (induction s) (auto simp: sublist_Cons_right)

lemma find_idx_append:
  "\<forall>j<length a. \<not> prefix pat (drop j (a @ pat @ r)) \<Longrightarrow>
     find_idx (a @ pat @ r) pat = Some (length a)"
proof (induction a)
  case Nil
  have "prefix pat (pat @ r)" by simp
  then show ?case by (cases "pat @ r") auto
next
  case (Cons c a)
  from Cons.prems have "\<not> prefix pat ((c # a) @ pat @ r)" by force
  moreover from Cons.prems have "\<forall>j<length a. \<not> prefix pat (drop j (a @ pat @ r))" by force
  ultimately show ?case using Cons.IH by simp
qed

lemma first_idx_None: "first_idx P s = None \<longleftrightarrow> (\<forall>c\<in>set s. \<not> P c)"
  by (induction s) auto

lemma first_idx_Some: "first_idx P s = Some i \<Longrightarrow> i < length s \<and> P (s ! i)"
  by (induction s arbitrary: i) (auto split: if_splits)

lemma first_idx_append:
  "\<forall>c\<in>set a. \<not> P c \<Longrightarrow> P x \<Longrightarrow> first_idx P (a @ x # r) = Some (length a)"
  by (induction a) auto

lemma last_idx_None: "last_idx P s = None \<longleftrightarrow> (\<forall>c\<in>set s. \<not> P c)"
  by (induction s) (auto split: option.splits)

lemma last_idx_Some: "last_idx P s = Some i \<Longrightarrow> i < length s \<and> P (s ! i)"
  by (induction s arbitrary: i) (auto split: option.splits if_splits)

lemma last_idx_append:
  "P x \<Longrightarrow> \<forall>c\<in>set t. \<not> P c \<Longrightarrow> last_idx P (a @ x # t) = Some (length a)"
  by (induction a) (auto simp: last_idx_None split: option.splits)

lemma size_add_npos: "size_add npos 1 = 0" "size_add npos (Suc 0) = 0" "size_add npos 2 = 1"
  by (simp_all add: size_add_def npos_def)

lemma size_add_le: "size_add a b \<le> a + b"
  by (simp add: size_add_def)

lemma size_add_exact: "a + b < npos \<Longrightarrow> size_add a b = a + b"
  by (simp add: size_add_def npos_def)

lemma after_str_find_le: "pat \<noteq> [] \<Longrightarrow> size_add (str_find s pat) 1 \<le> length s"
proof (cases "find_idx s pat")
  case None
  then show ?thesis by (simp add: str_find_def to_pos_def size_add_npos)
next
  case (Some i)
  assume "pat \<noteq> []"
  then have "1 \<le> length pat" by (cases pat) auto
  with find_idx_Some [OF Some] have "i + 1 \<le> length s" by linarith
  with size_add_le [of i 1] show ?thesis using Some by (simp add: str_find_def to_pos_def)
qed

lemma after_find_first_of_le: "size_add (find_first_of s cs) 1 \<le> length s"
proof (cases "first_idx (\<lambda>c. c \<in> set cs) s")
  case None
  then show ?thesis by (simp add: find_first_of_def to_pos_def size_add_npos)
next
  case (Some i)
  with first_idx_Some [OF Some] size_add_le [of i 1] show ?thesis
    by (simp add: find_first_of_def to_pos_def)
qed

lemma after_find_last_of_le: "size_add (find_last_of s cs) 1 \<le> length s"
proof (cases "last_idx (\<lambda>c. c \<in> set cs) s")
  case None
  then show ?thesis by (simp add: find_last_of_def to_pos_def size_add_npos)
next
  case (Some i)
  with last_idx_Some [OF Some] size_add_le [of i 1] show ?thesis
    by (simp add: find_last_of_def to_pos_def)
qed

lemma substr_in_range: "pos \<le> length s \<Longrightarrow> substr s pos n = Inr (take n (drop pos s))"
  by (simp add: substr_def)

lemma substr_whole: "pos \<le> length s \<Longrightarrow> length s \<le> npos \<Longrightarrow> substr s pos npos = Inr (drop pos s)"
  by (simp add: substr_def)

lemma substr_set: "substr s pos n = Inr t \<Longrightarrow> set t \<subseteq> set s"
  by (auto simp: substr_def split: if_splits dest: in_set_takeD in_set_dropD)

lemma ebind_Inl [simp]: "ebind (Inl e) f = Inl e"
  by (simp add: ebind_def)

lemma ebind_Inr [simp]: "ebind (Inr x) f = f x"
  by (simp add: ebind_def)

section \<open>Evaluating the parsers\<close>

lemmas char_defs = CRLF_def CR_def LF_def TAB_def VT_def FF_def SP_def

lemmas string_defs = substr_def find_first_not_of_def find_first_of_def find_last_of_def
  str_find_def to_pos_def npos_def size_add_def

lemmas stoul_defs = stoul_def is_negative_def skip_sign_def isspace_def isdigit_def digit_val_def
  ULONG_MAX_def

lemmas parse_defs = Request_Line_parse_def ebind_def string_defs char_defs stoul_defs

lemmas response_defs = Response_reset_def set_status_code_def Message_reset_def set_code_def
  Response_ctor_def Response_default_def Response_of_def Message_ctor_def Status_line_ctor_def
  Version_default_def OK_def

section \<open>The request line: concrete inputs and the length guard\<close>

text \<open>
  Claim C1. Parsing the buffer \<open>GET /index.html HTTP/1.1\r\n\<close> yields the method GET, the
  uri \<open>/index.html\<close> and the version (1, 1), consuming the whole buffer, and the string
  form of that request line is the input again, byte for byte.
\<close>

theorem Request_Line_index_html_roundtrip:
  "Request_Line_parse (''GET /index.html HTTP/1.1'' @ CRLF) =
     Inr (\<lparr>rl_method = method_GET, rl_uri = ''/index.html'',
            rl_version = \<lparr>major = 1, minor = 1\<rparr>\<rparr>, [])
   \<and> Request_Line_to_string
       \<lparr>rl_method = method_GET, rl_uri = ''/index.html'', rl_version = \<lparr>major = 1, minor = 1\<rparr>\<rparr>
     = ''GET /index.html HTTP/1.1'' @ CRLF"
  by (simp add: parse_defs method_GET_def Request_Line_to_string_def Version_to_string_def
      dec_string.simps)

text \<open>
  Claim C2. For every buffer that is empty or shorter than 16 bytes the parsing constructor
  returns at once: the object keeps its default value (GET, \<open>/\<close>, HTTP/1.1), no error is
  raised and the buffer is left as it was.
\<close>

theorem Request_Line_short_default:
  "length request < 16 \<Longrightarrow>
     Request_Line_parse request =
       Inr (\<lparr>rl_method = method_GET, rl_uri = ''/'', rl_version = \<lparr>major = 1, minor = 1\<rparr>\<rparr>,
            request)"
  by (simp add: Request_Line_parse_def Request_Line_default_def)

theorem Request_Line_short_default_witness:
  "length ''GET / HTTP/1.1'' < 16 \<and>
   Request_Line_parse ''GET / HTTP/1.1'' =
     Inr (\<lparr>rl_method = method_GET, rl_uri = ''/'', rl_version = \<lparr>major = 1, minor = 1\<rparr>\<rparr>,
          ''GET / HTTP/1.1'')"
  using Request_Line_short_default [of "''GET / HTTP/1.1''"] by simp

text \<open>
  Claim C9. The guard is strict: the well-formed 16-byte buffer \<open>GET / HTTP/1.1\r\n\<close> is
  parsed (the line is consumed from the buffer, which the guard would have left alone),
  and the 16-byte buffer \<open>PUT / HTTP/1.0\r\n\<close> yields values that are not the defaults.
\<close>

theorem Request_Line_guard_strict:
  "length (''GET / HTTP/1.1'' @ CRLF) = 16
   \<and> Request_Line_parse (''GET / HTTP/1.1'' @ CRLF) =
     Inr (\<lparr>rl_method = method_GET, rl_uri = ''/'', rl_version = \<lparr>major = 1, minor = 1\<rparr>\<rparr>, [])
   \<and> length (''PUT / HTTP/1.0'' @ CRLF) = 16
   \<and> Request_Line_parse (''PUT / HTTP/1.0'' @ CRLF) =
     Inr (\<lparr>rl_method = ''PUT'', rl_uri = ''/'', rl_version = \<lparr>major = 1, minor = 0\<rparr>\<rparr>, [])"
  by (simp add: parse_defs method_GET_def)

text \<open>
  Claim C8, at a buffer without CRLF. \<open>request.find("\r\n")\<close> is \<open>npos\<close>, \<open>npos + 2\<close> wraps
  to 1, and the constructor assigns \<open>request.substr(1)\<close>: the 24-byte buffer
  \<open>GET /index.html HTTP/1.1\<close> is parsed as one line and then loses its first byte only.
\<close>

theorem Request_Line_no_CRLF_drops_first_byte:
  "str_find ''GET /index.html HTTP/1.1'' CRLF = npos
   \<and> Request_Line_parse ''GET /index.html HTTP/1.1'' =
     Inr (\<lparr>rl_method = ''GET'', rl_uri = ''/index.html'',
            rl_version = \<lparr>major = 1, minor = 1\<rparr>\<rparr>, ''ET /index.html HTTP/1.1'')"
  by (simp add: parse_defs)

section \<open>Resetting a response\<close>

text \<open>
  Claim C6, at a response built with the version 1.0. \<open>reset\<close> clears the message and
  sets the code to OK; it never assigns the version of the status line, so the response
  keeps the version 1.0 and differs from a default-constructed one.
\<close>

theorem Response_reset_keeps_version:
  "sl_version (status_line
     (Response_reset (set_status_code (Response_ctor OK \<lparr>major = 1, minor = 0\<rparr>) 404)))
     = \<lparr>major = 1, minor = 0\<rparr>
   \<and> sl_version (status_line Response_default) = \<lparr>major = 1, minor = 1\<rparr>
   \<and> Response_reset (set_status_code (Response_ctor OK \<lparr>major = 1, minor = 0\<rparr>) 404)
     \<noteq> Response_default"
  by (simp add: response_defs)

text \<open>Resetting twice is resetting once, and a response with the default version and
  limit is reset to the default response.\<close>

lemma Response_reset_idem: "Response_reset (Response_reset r) = Response_reset r"
  by (simp add: response_defs)

lemma Response_reset_default_version:
  "sl_version (status_line r) = Version_default \<Longrightarrow> field_limit r = 100 \<Longrightarrow>
     Response_reset r = Response_default"
  by (cases r) (simp add: response_defs)

section \<open>The request line: buffers of blanks\<close>

text \<open>
  Claim C10. For every buffer of at least 16 bytes made only of the trimmed characters
  (form feed, tab, vertical tab, space), \<open>find_first_not_of\<close> returns \<open>npos\<close>, which is
  beyond the size of every string, so \<open>substr\<close> throws \<open>std::out_of_range\<close>: the
  constructor yields neither the default nor any parsed request line.
\<close>

theorem Request_Line_blank_out_of_range:
  assumes "16 \<le> length request" and "set request \<subseteq> {FF, TAB, VT, SP}"
    and "length request < npos"
  shows "Request_Line_parse request = Inl OutOfRange"
proof -
  from assms(2) have "first_idx (\<lambda>c. c \<notin> set [FF, TAB, VT, SP]) request = None"
    by (auto simp: first_idx_None)
  then have "find_first_not_of request [FF, TAB, VT, SP] = npos"
    by (simp add: find_first_not_of_def to_pos_def)
  with assms(3) have "substr request (find_first_not_of request [FF, TAB, VT, SP]) npos = Inl OutOfRange"
    by (simp add: substr_def)
  with assms(1) show ?thesis
    by (auto simp: Request_Line_parse_def)
qed

theorem Request_Line_blank_out_of_range_witness:
  "16 \<le> length (replicate 16 SP) \<and> set (replicate 16 SP) \<subseteq> {FF, TAB, VT, SP}
   \<and> length (replicate 16 SP) < npos
   \<and> Request_Line_parse (replicate 16 SP) = Inl OutOfRange"
proof -
  have h1: "16 \<le> length (replicate 16 SP)" by simp
  have h2: "set (replicate 16 SP) \<subseteq> {FF, TAB, VT, SP}" by simp
  have h3: "length (replicate 16 SP) < npos" by (simp add: npos_def)
  from Request_Line_blank_out_of_range [OF h1 h2 h3] h1 h2 h3 show ?thesis by blast
qed

section \<open>The request line: buffers without structure\<close>

lemma stoul_unstructured: "unstructured s \<Longrightarrow> stoul s = Inl InvalidArgument"
  by (cases s) (simp_all add: stoul_def skip_sign_def unstructured_def)

lemma unstructured_substr: "unstructured s \<Longrightarrow> substr s pos n = Inr t \<Longrightarrow> unstructured t"
  using substr_set [of s pos n t] by (auto simp: unstructured_def)

lemma unstructured_no_blank:
  assumes "unstructured s"
  shows "first_idx (\<lambda>c. c \<in> set [SP]) s = None" and "last_idx (\<lambda>c. c \<in> set [SP]) s = None"
    and "s \<noteq> [] \<Longrightarrow> first_idx (\<lambda>c. c \<notin> set [FF, TAB, VT, SP]) s = Some 0"
proof -
  from assms have sp: "\<forall>c\<in>set s. c \<noteq> SP \<and> c \<noteq> FF \<and> c \<noteq> TAB \<and> c \<noteq> VT"
    by (auto simp: unstructured_def isspace_def)
  then show "first_idx (\<lambda>c. c \<in> set [SP]) s = None" by (simp add: first_idx_None)
  from sp show "last_idx (\<lambda>c. c \<in> set [SP]) s = None" by (simp add: last_idx_None)
  from sp show "s \<noteq> [] \<Longrightarrow> first_idx (\<lambda>c. c \<notin> set [FF, TAB, VT, SP]) s = Some 0"
    by (cases s) auto
qed

text \<open>
  Claim C3, as stated, at sixteen letters. The buffer passes the length guard, every
  search fails, the whole buffer is handed to \<open>std::stoul\<close> as the major version, and
  \<open>std::invalid_argument\<close> leaves the constructor: no object with default values results.
\<close>

theorem Request_Line_sixteen_letters_throws:
  "length ''ABCDEFGHIJKLMNOP'' = 16
   \<and> Request_Line_parse ''ABCDEFGHIJKLMNOP'' = Inl InvalidArgument"
  by (simp add: parse_defs)

text \<open>
  Claim C3, amended. For every buffer of exactly 16 bytes that holds no white space, no
  sign and no digit (sixteen letters, for one), the parsing constructor does not degrade
  to the default values: the numeric conversion of the major version throws
  \<open>std::invalid_argument\<close>, which reaches the caller.
\<close>

theorem Request_Line_unstructured_throws:
  assumes len: "length request = 16" and un: "unstructured request"
  shows "Request_Line_parse request = Inl InvalidArgument"
proof -
  from len have ne: "request \<noteq> []" by auto
  from unstructured_no_blank(3) [OF un ne]
  have "find_first_not_of request [FF, TAB, VT, SP] = 0"
    by (simp add: find_first_not_of_def to_pos_def)
  then obtain start where start: "substr request (find_first_not_of request [FF, TAB, VT, SP]) npos = Inr start"
    by (simp add: substr_def)
  have u0: "unstructured start" by (rule unstructured_substr [OF un start])
  obtain rl where rl: "substr start 0 (str_find start CRLF) = Inr rl"
    by (simp add: substr_def)
  have u1: "unstructured rl" by (rule unstructured_substr [OF u0 rl])
  obtain m where m: "substr rl 0 (find_first_of rl [SP]) = Inr m"
    by (simp add: substr_def)
  from unstructured_no_blank(1) [OF u1] have "size_add (find_first_of rl [SP]) 1 = 0"
    by (simp add: find_first_of_def to_pos_def size_add_npos)
  then obtain rl1 where rl1: "substr rl (size_add (find_first_of rl [SP]) 1) npos = Inr rl1"
    by (simp add: substr_def)
  have u2: "unstructured rl1" by (rule unstructured_substr [OF u1 rl1])
  obtain u where u: "substr rl1 0 (find_last_of rl1 [SP]) = Inr u"
    by (simp add: substr_def)
  from unstructured_no_blank(2) [OF u2] have "size_add (find_last_of rl1 [SP]) 1 = 0"
    by (simp add: find_last_of_def to_pos_def size_add_npos)
  then obtain rl2 where rl2: "substr rl1 (size_add (find_last_of rl1 [SP]) 1) npos = Inr rl2"
    by (simp add: substr_def)
  have u3: "unstructured rl2" by (rule unstructured_substr [OF u2 rl2])
  have "size_add (str_find rl2 ''/'') 1 \<le> length rl2" by (rule after_str_find_le) simp
  then obtain major_s where
    major_s: "substr rl2 (size_add (str_find rl2 ''/'') 1) (str_find rl2 ''.'') = Inr major_s"
    by (simp add: substr_def)
  have "size_add (str_find rl2 ''.'') 1 \<le> length rl2" by (rule after_str_find_le) simp
  then obtain minor_s where
    minor_s: "substr rl2 (size_add (str_find rl2 ''.'') 1) npos = Inr minor_s"
    by (simp add: substr_def)
  have "stoul major_s = Inl InvalidArgument"
    by (rule stoul_unstructured [OF unstructured_substr [OF u3 major_s]])
  with len ne start rl m rl1 u rl2 major_s minor_s show ?thesis
    by (simp add: Request_Line_parse_def)
qed

theorem Request_Line_unstructured_throws_witness:
  "length ''HelloWorldFooBar'' = 16 \<and> unstructured ''HelloWorldFooBar''
   \<and> Request_Line_parse ''HelloWorldFooBar'' = Inl InvalidArgument"
proof -
  have h1: "length ''HelloWorldFooBar'' = 16" by simp
  have h2: "unstructured ''HelloWorldFooBar''"
    by (simp add: unstructured_def isspace_def isdigit_def char_defs)
  from Request_Line_unstructured_throws [OF h1 h2] h1 h2 show ?thesis by blast
qed

section \<open>The request line: the version numbers\<close>

lemma stoul_invalid_iff:
  "stoul s = Inl InvalidArgument \<longleftrightarrow> takeWhile isdigit (skip_sign (dropWhile isspace s)) = []"
  by (simp add: stoul_def Let_def)

lemma isdigit_not_space: "isdigit d \<Longrightarrow> \<not> isspace d \<and> d \<noteq> CHR ''+'' \<and> d \<noteq> CHR ''-''"
  by (auto simp: isdigit_def isspace_def char_defs)

lemma sign_not_space: "\<not> isspace CHR ''+''" "\<not> isspace CHR ''-''"
  by (simp_all add: isspace_def char_defs)

lemma starts_numeric_stoul: "starts_numeric s \<longleftrightarrow> stoul s \<noteq> Inl InvalidArgument"
proof
  assume "starts_numeric s"
  then obtain ws sg d rest where s: "s = ws @ sg @ d # rest" and ws: "\<forall>c\<in>set ws. isspace c"
    and sg: "sg = [] \<or> sg = ''+'' \<or> sg = ''-''" and d: "isdigit d"
    by (auto simp: starts_numeric_def)
  note nd = isdigit_not_space [OF d]
  from ws have "dropWhile isspace s = dropWhile isspace (sg @ d # rest)"
    unfolding s by (simp add: dropWhile_append2)
  also from sg nd have "\<dots> = sg @ d # rest"
    by (auto simp: sign_not_space)
  finally have dw: "dropWhile isspace s = sg @ d # rest" .
  from sg d nd show "stoul s \<noteq> Inl InvalidArgument"
    by (auto simp: stoul_invalid_iff dw skip_sign_def)
next
  assume ok: "stoul s \<noteq> Inl InvalidArgument"
  have split: "s = takeWhile isspace s @ dropWhile isspace s" by simp
  have ws: "\<forall>c\<in>set (takeWhile isspace s). isspace c" by (auto dest: set_takeWhileD)
  show "starts_numeric s"
  proof (cases "dropWhile isspace s")
    case Nil
    with ok show ?thesis by (simp add: stoul_invalid_iff skip_sign_def)
  next
    case (Cons c cs)
    show ?thesis
    proof (cases "c = CHR ''+'' \<or> c = CHR ''-''")
      case True
      with ok Cons have "takeWhile isdigit cs \<noteq> []"
        by (auto simp: stoul_invalid_iff skip_sign_def)
      then obtain d rest where cs: "cs = d # rest" and d: "isdigit d"
        by (cases cs) (auto split: if_splits)
      from split Cons cs have "s = takeWhile isspace s @ [c] @ d # rest" by simp
      with ws True d show ?thesis unfolding starts_numeric_def by blast
    next
      case False
      with ok Cons have "takeWhile isdigit (c # cs) \<noteq> []"
        by (auto simp: stoul_invalid_iff skip_sign_def)
      then have d: "isdigit c" by (auto split: if_splits)
      from split Cons have "s = takeWhile isspace s @ [] @ c # cs" by simp
      with ws d show ?thesis unfolding starts_numeric_def by blast
    qed
  qed
qed

text \<open>The constructor slices a major and a minor text from every buffer that holds a byte
  other than the trimmed ones.\<close>

lemma version_texts_defined:
  assumes "\<exists>c\<in>set request. c \<notin> set [FF, TAB, VT, SP]"
  shows "\<exists>mj mn. version_texts request = Inr (mj, mn)"
proof -
  from assms obtain k where k: "first_idx (\<lambda>c. c \<notin> set [FF, TAB, VT, SP]) request = Some k"
    using first_idx_None [of "\<lambda>c. c \<notin> set [FF, TAB, VT, SP]" request] by (cases "first_idx (\<lambda>c. c \<notin> set [FF, TAB, VT, SP]) request") auto
  from first_idx_Some [OF k] have "k \<le> length request" by simp
  moreover from k have "find_first_not_of request [FF, TAB, VT, SP] = k"
    by (simp add: find_first_not_of_def to_pos_def)
  ultimately have "substr request (find_first_not_of request [FF, TAB, VT, SP]) npos
      = Inr (take npos (drop k request))"
    by (simp add: substr_in_range)
  then show ?thesis
    by (simp add: version_texts_def substr_in_range after_find_first_of_le [unfolded One_nat_def]
        after_find_last_of_le [unfolded One_nat_def] after_str_find_le [unfolded One_nat_def])
qed

text \<open>
  Claim C4, as stated, at \<open>GET /index.html HTTP/1.1x\r\n\<close>. The minor text handed to
  \<open>std::stoul\<close> is \<open>1x\<close>, which is not a number, yet \<open>std::stoul\<close> converts its leading
  digit and ignores the rest: no failure is raised and the version (1, 1) is stored.
\<close>

theorem Request_Line_trailing_garbage_accepted:
  "version_texts (''GET /index.html HTTP/1.1x'' @ CRLF) = Inr (''1.1x'', ''1x'')
   \<and> Request_Line_parse (''GET /index.html HTTP/1.1x'' @ CRLF) =
     Inr (\<lparr>rl_method = ''GET'', rl_uri = ''/index.html'',
            rl_version = \<lparr>major = 1, minor = 1\<rparr>\<rparr>, [])"
  by (simp add: parse_defs version_texts_def)

text \<open>
  Claim C4, amended. For every buffer of at least 16 bytes from which the constructor
  slices a major and a minor text: when one of the two does not start with a number (a
  decimal digit after optional white space and at most one sign), as the minor text \<open>x\<close>
  of \<open>HTTP/1.x\<close>, the constructor raises a numeric-parse failure and stores no version.
  The failure is \<open>std::invalid_argument\<close>, unless the major text is a number too large
  for \<open>unsigned long\<close>, which is \<open>std::out_of_range\<close> before the minor text is read.
\<close>

theorem Request_Line_non_numeric_throws:
  assumes len: "16 \<le> length request" and vt: "version_texts request = Inr (mj, mn)"
    and bad: "\<not> starts_numeric mj \<or> \<not> starts_numeric mn"
  shows "Request_Line_parse request = Inl InvalidArgument
         \<or> (stoul mj = Inl OutOfRange \<and> Request_Line_parse request = Inl OutOfRange)"
proof -
  from len have ne: "request \<noteq> []" by auto
  from vt obtain start rl rl1 rl2 where
    start: "substr request (find_first_not_of request [FF, TAB, VT, SP]) npos = Inr start" and
    rl: "substr start 0 (str_find start CRLF) = Inr rl" and
    rl1: "substr rl (size_add (find_first_of rl [SP]) 1) npos = Inr rl1" and
    rl2: "substr rl1 (size_add (find_last_of rl1 [SP]) 1) npos = Inr rl2" and
    mj: "substr rl2 (size_add (str_find rl2 ''/'') 1) (str_find rl2 ''.'') = Inr mj" and
    mn: "substr rl2 (size_add (str_find rl2 ''.'') 1) npos = Inr mn"
    by (auto simp: version_texts_def ebind_def split: sum.splits)
  obtain m where m: "substr rl 0 (find_first_of rl [SP]) = Inr m"
    by (simp add: substr_def)
  obtain u where u: "substr rl1 0 (find_last_of rl1 [SP]) = Inr u"
    by (simp add: substr_def)
  have parse: "Request_Line_parse request =
     ebind (stoul mj) (\<lambda>maj. ebind (stoul mn) (\<lambda>mn'.
       ebind (substr request (size_add (str_find request CRLF) 2) npos) (\<lambda>rest.
       Inr (\<lparr>rl_method = m, rl_uri = u,
              rl_version = \<lparr>major = ucast maj, minor = ucast mn'\<rparr>\<rparr>, rest))))"
    using len ne start rl m rl1 u rl2 mj mn by (simp add: Request_Line_parse_def)
  show ?thesis
  proof (cases "stoul mj")
    case (Inl e)
    then show ?thesis using parse by (cases e) simp_all
  next
    case (Inr maj)
    then have "starts_numeric mj" by (simp add: starts_numeric_stoul)
    with bad have "stoul mn = Inl InvalidArgument" by (simp add: starts_numeric_stoul)
    with Inr parse show ?thesis by simp
  qed
qed

theorem Request_Line_non_numeric_throws_witness:
  "16 \<le> length (''GET /index.html HTTP/1.x'' @ CRLF)
   \<and> version_texts (''GET /index.html HTTP/1.x'' @ CRLF) = Inr (''1.x'', ''x'')
   \<and> \<not> starts_numeric ''x''
   \<and> Request_Line_parse (''GET /index.html HTTP/1.x'' @ CRLF) = Inl InvalidArgument"
proof -
  have h1: "16 \<le> length (''GET /index.html HTTP/1.x'' @ CRLF)" by (simp add: char_defs)
  have h2: "version_texts (''GET /index.html HTTP/1.x'' @ CRLF) = Inr (''1.x'', ''x'')"
    by (simp add: version_texts_def ebind_def string_defs char_defs)
  have h3: "\<not> starts_numeric ''x''" by (simp add: starts_numeric_stoul stoul_defs char_defs)
  then have h3': "\<not> starts_numeric ''1.x'' \<or> \<not> starts_numeric ''x''" by simp
  have h4: "stoul ''1.x'' \<noteq> Inl OutOfRange" by (simp add: stoul_defs char_defs)
  from Request_Line_non_numeric_throws [OF h1 h2 h3'] h4
  have "Request_Line_parse (''GET /index.html HTTP/1.x'' @ CRLF) = Inl InvalidArgument" by blast
  with h1 h2 h3 show ?thesis by blast
qed

section \<open>The request line: a uri with spaces\<close>

lemma find_idx_CRLF: "LF \<notin> set a \<Longrightarrow> find_idx (a @ CR # LF # r) [CR, LF] = Some (length a)"
proof (induction a)
  case Nil
  then show ?case by simp
next
  case (Cons c a)
  then have "\<not> prefix [CR, LF] (c # a @ CR # LF # r)"
    by (cases a) (auto simp: CR_def LF_def)
  with Cons show ?case by simp
qed

lemma str_find_CRLF: "LF \<notin> set a \<Longrightarrow> str_find (a @ CRLF @ r) CRLF = length a"
  by (simp add: str_find_def to_pos_def CRLF_def find_idx_CRLF)

lemma find_first_of_append:
  "\<forall>c\<in>set a. c \<notin> set cs \<Longrightarrow> x \<in> set cs \<Longrightarrow> find_first_of (a @ x # r) cs = length a"
  by (simp add: find_first_of_def to_pos_def first_idx_append)

lemma find_last_of_append:
  "x \<in> set cs \<Longrightarrow> \<forall>c\<in>set t. c \<notin> set cs \<Longrightarrow> find_last_of (a @ x # t) cs = length a"
  by (simp add: find_last_of_def to_pos_def last_idx_append)

lemma http11_texts:
  "find_last_of (u @ SP # ''HTTP/1.1'') [SP] = length u"
  "str_find ''HTTP/1.1'' ''/'' = 4" "str_find ''HTTP/1.1'' ''.'' = 6"
  "stoul ''1.1'' = Inr 1" "stoul ''1'' = Inr 1"
  by (simp_all add: find_last_of_append SP_def str_find_def to_pos_def stoul_defs char_defs)

text \<open>
  Claim C7. For every request line \<open>m u HTTP/1.1\r\n\<close> (a method \<open>m\<close> without space, not
  starting with a trimmed character; a uri \<open>u\<close> that may hold any number of spaces; no
  line feed in either), the constructor splits what follows the method at its last space:
  the uri field is all of \<open>u\<close>, spaces included, the version is (1, 1), and the buffer is
  left at what followed the CRLF. The input \<open>GET /a b HTTP/1.1\r\n\<close> is the instance
  \<open>m = GET\<close>, \<open>u = /a b\<close>.
\<close>

theorem Request_Line_uri_with_spaces:
  assumes m: "m \<noteq> []" "hd m \<notin> {FF, TAB, VT, SP}" "SP \<notin> set m" "LF \<notin> set m"
    and u: "LF \<notin> set u"
    and len: "16 \<le> length (m @ SP # u @ SP # ''HTTP/1.1'' @ CRLF @ rest)"
      "length (m @ SP # u @ SP # ''HTTP/1.1'' @ CRLF @ rest) < npos"
  shows "Request_Line_parse (m @ SP # u @ SP # ''HTTP/1.1'' @ CRLF @ rest) =
           Inr (\<lparr>rl_method = m, rl_uri = u, rl_version = \<lparr>major = 1, minor = 1\<rparr>\<rparr>, rest)"
proof -
  define line where "line = m @ SP # u @ SP # ''HTTP/1.1''"
  define request where "request = line @ CRLF @ rest"
  have req: "m @ SP # u @ SP # ''HTTP/1.1'' @ CRLF @ rest = request"
    by (simp add: request_def line_def)
  from len have len16: "16 \<le> length request" and lennp: "length request < npos"
    by (simp_all only: req)
  from len16 have ne: "request \<noteq> []" by auto
  have lf: "LF \<notin> set line" using m(4) u by (simp add: line_def char_defs)
  have "first_idx (\<lambda>c. c \<notin> set [FF, TAB, VT, SP]) request = Some 0"
    using m(1,2) by (cases m) (simp_all add: request_def line_def)
  then have "find_first_not_of request [FF, TAB, VT, SP] = 0"
    by (simp add: find_first_not_of_def to_pos_def)
  with lennp have s1: "substr request (find_first_not_of request [FF, TAB, VT, SP]) npos = Inr request"
    by (simp add: substr_def)
  have s2: "substr request 0 (str_find request CRLF) = Inr line"
    by (simp add: request_def str_find_CRLF [OF lf] substr_def)
  have ffo: "find_first_of line [SP] = length m"
    unfolding line_def using m(3) by (intro find_first_of_append) auto
  have s3: "substr line 0 (find_first_of line [SP]) = Inr m"
    by (simp add: ffo substr_def) (simp add: line_def)
  have "length m + 1 < npos" using lennp by (simp add: request_def line_def)
  then have sa1: "size_add (length m) 1 = length m + 1" by (rule size_add_exact)
  have linenp: "length line < npos" using lennp by (simp add: request_def)
  have d4: "drop (length m + 1) line = u @ SP # ''HTTP/1.1''" by (simp add: line_def)
  have "substr line (length m + 1) npos = Inr (drop (length m + 1) line)"
    using linenp by (simp add: substr_def line_def)
  then have s4: "substr line (size_add (find_first_of line [SP]) 1) npos = Inr (u @ SP # ''HTTP/1.1'')"
    by (simp only: ffo sa1 d4)
  have s5: "substr (u @ SP # ''HTTP/1.1'') 0 (find_last_of (u @ SP # ''HTTP/1.1'') [SP]) = Inr u"
    by (simp add: http11_texts substr_def)
  have "length u + 1 < npos" using lennp by (simp add: request_def line_def)
  then have "size_add (length u) 1 = length u + 1" by (rule size_add_exact)
  then have sa2: "size_add (length u) (Suc 0) = Suc (length u)" by simp
  have s6: "substr (u @ SP # ''HTTP/1.1'') (size_add (find_last_of (u @ SP # ''HTTP/1.1'') [SP]) 1) npos
              = Inr ''HTTP/1.1''"
    by (simp add: http11_texts sa2 substr_def npos_def)
  have s7: "substr ''HTTP/1.1'' (size_add (str_find ''HTTP/1.1'' ''/'') 1) (str_find ''HTTP/1.1'' ''.'')
              = Inr ''1.1''"
    by (simp add: http11_texts substr_def size_add_def)
  have s8: "substr ''HTTP/1.1'' (size_add (str_find ''HTTP/1.1'' ''.'') 1) npos = Inr ''1''"
    by (simp add: http11_texts substr_def size_add_def npos_def)
  have "length line + 2 < npos" using lennp by (simp add: request_def CRLF_def)
  then have sa3: "size_add (length line) 2 = Suc (Suc (length line))"
    by (simp add: size_add_exact)
  have sf: "str_find request CRLF = length line"
    by (simp add: request_def str_find_CRLF [OF lf])
  have d9: "drop (Suc (Suc (length line))) request = rest"
    and l9: "Suc (Suc (length line)) \<le> length request"
    by (simp_all add: request_def CRLF_def)
  have "length rest < npos" using lennp by (simp add: request_def)
  then have s9: "substr request (size_add (str_find request CRLF) 2) npos = Inr rest"
    using l9 by (simp add: sf sa3 substr_def d9)
  have "Request_Line_parse request =
           Inr (\<lparr>rl_method = m, rl_uri = u, rl_version = \<lparr>major = 1, minor = 1\<rparr>\<rparr>, rest)"
    unfolding Request_Line_parse_def
    using len16 ne s1 s2 s3 s4 s5 s6 s7 s8 s9 by (simp add: http11_texts)
  then show ?thesis by (simp only: req)
qed

theorem Request_Line_uri_with_spaces_witness:
  "Request_Line_parse (''GET'' @ SP # ''/a b'' @ SP # ''HTTP/1.1'' @ CRLF @ []) =
     Inr (\<lparr>rl_method = ''GET'', rl_uri = ''/a b'', rl_version = \<lparr>major = 1, minor = 1\<rparr>\<rparr>, [])"
proof -
  have h1: "''GET'' \<noteq> []" by simp
  have h2: "hd ''GET'' \<notin> {FF, TAB, VT, SP}" by (simp add: char_defs)
  have h3: "SP \<notin> set ''GET''" by (simp add: char_defs)
  have h4: "LF \<notin> set ''GET''" by (simp add: char_defs)
  have h5: "LF \<notin> set ''/a b''" by (simp add: char_defs)
  have h6: "16 \<le> length (''GET'' @ SP # ''/a b'' @ SP # ''HTTP/1.1'' @ CRLF @ [])"
    by (simp add: char_defs)
  have h7: "length (''GET'' @ SP # ''/a b'' @ SP # ''HTTP/1.1'' @ CRLF @ []) < npos"
    by (simp add: char_defs npos_def)
  show ?thesis by (rule Request_Line_uri_with_spaces [OF h1 h2 h3 h4 h5 h6 h7])
qed

section \<open>The response: the boundary between headers and body\<close>

lemma find_idx_first_split:
  assumes "find_idx s sep = Some i"
  shows "first_split sep s (take i s) (drop (i + length sep) s)"
proof -
  from find_idx_Some [OF assms] have le: "i + length sep \<le> length s"
    and eq: "s = take i s @ sep @ drop (i + length sep) s"
    and first: "\<forall>j<i. \<not> prefix sep (drop j s)" by auto
  have "length (take i s) \<le> length pre'" if "s = pre' @ sep @ post'" for pre' post'
  proof -
    from that have "drop (length pre') s = sep @ post'" by simp
    then have "prefix sep (drop (length pre') s)" by simp
    with first have "\<not> length pre' < i" by blast
    then show ?thesis by simp
  qed
  with eq show ?thesis unfolding first_split_def by blast
qed

lemma body_after_separator:
  assumes "find_idx s sep = Some i" and "length s < npos"
  shows "str_find s sep \<noteq> npos"
    and "substr s (size_add (str_find s sep) (length sep)) npos = Inr (drop (i + length sep) s)"
proof -
  from find_idx_Some [OF assms(1)] have le: "i + length sep \<le> length s" by simp
  with assms(2) have lt: "i + length sep < npos" by simp
  from assms(1) have sf: "str_find s sep = i" by (simp add: str_find_def to_pos_def)
  from lt show "str_find s sep \<noteq> npos" by (simp add: sf)
  from le assms(2) show "substr s (size_add (str_find s sep) (length sep)) npos = Inr (drop (i + length sep) s)"
    by (simp add: sf size_add_exact [OF lt] substr_def)
qed

lemma str_find_absent: "find_idx s sep = None \<Longrightarrow> str_find s sep = npos"
  by (simp add: str_find_def to_pos_def)




section \<open>The request line: what is left of the buffer\<close>

text \<open>
  Past the guard, the buffer the constructor leaves is \<open>request.substr(find("\r\n") + 2)\<close>.
  With a CRLF in the buffer that is all that follows the first CRLF. Without one,
  \<open>npos + 2\<close> wraps to 1 and the buffer loses its first byte, whatever the line was. In
  both cases the buffer gets shorter, which the guard's early return never does.
\<close>

lemma Request_Line_parse_rest:
  assumes "Request_Line_parse request = Inr (rl, rest)" and "16 \<le> length request"
  shows "substr request (size_add (str_find request CRLF) 2) npos = Inr rest"
  using assms by (auto simp: Request_Line_parse_def ebind_def split: sum.splits if_splits)

lemma Request_Line_parse_consumes_line:
  assumes p: "Request_Line_parse request = Inr (rl, rest)" and len: "16 \<le> length request"
    and np: "length request < npos" and crlf: "sublist CRLF request"
  shows "\<exists>pre. first_split CRLF request pre rest"
proof -
  from crlf obtain i where i: "find_idx request CRLF = Some i"
    using find_idx_None [of request CRLF] by auto
  have two: "length CRLF = 2" by (simp add: CRLF_def)
  from body_after_separator(2) [OF i np, unfolded two] Request_Line_parse_rest [OF p len]
  have "rest = drop (i + 2) request" by simp
  with find_idx_first_split [OF i] two show ?thesis by auto
qed

lemma Request_Line_parse_without_CRLF:
  assumes p: "Request_Line_parse request = Inr (rl, rest)" and len: "16 \<le> length request"
    and np: "length request < npos" and crlf: "\<not> sublist CRLF request"
  shows "rest = tl request"
proof -
  from crlf have "str_find request CRLF = npos"
    by (simp add: str_find_absent find_idx_None)
  with Request_Line_parse_rest [OF p len] np len show ?thesis
    by (simp add: size_add_npos substr_def drop_Suc split: if_splits)
qed

lemma Request_Line_parse_advances:
  assumes p: "Request_Line_parse request = Inr (rl, rest)" and len: "16 \<le> length request"
    and np: "length request < npos"
  shows "length rest < length request"
proof (cases "sublist CRLF request")
  case True
  from Request_Line_parse_consumes_line [OF p len np True]
  obtain pre where "request = pre @ CRLF @ rest" by (auto simp: first_split_def)
  then have "length request = length pre + 2 + length rest" by (simp add: CRLF_def)
  then show ?thesis by simp
next
  case False
  from Request_Line_parse_without_CRLF [OF p len np False] len show ?thesis by simp
qed

end
